theory Spec2Isabelle
  imports Complex_Main
begin

section \<open>Numbers and the math helpers the scene uses\<close>

text \<open>
  The program computes with JavaScript numbers. They are modelled as \<^typ>\<open>real\<close>: every
  statement below is about the exact arithmetic of the formulas the code evaluates, not about
  rounding, and not about the values NaN and \<open>\<plusminus>Infinity\<close>, which \<^typ>\<open>real\<close> does not have.
  \<open>Math.random()\<close> is modelled by passing each draw as an argument, in the order of the calls.

  \<open>THREE.MathUtils.lerp\<close> and \<open>THREE.MathUtils.damp\<close> are functions of the three.js library:
  \<^verbatim>\<open>lerp(x, y, t) = (1 - t) * x + t * y\<close> and
  \<^verbatim>\<open>damp(x, y, lambda, dt) = lerp(x, y, 1 - Math.exp(-lambda * dt))\<close>.
\<close>

definition lerp :: "real \<Rightarrow> real \<Rightarrow> real \<Rightarrow> real" where
  "lerp x y t = (1 - t) * x + t * y"

definition damp :: "real \<Rightarrow> real \<Rightarrow> real \<Rightarrow> real \<Rightarrow> real" where
  "damp x y lambda dt = lerp x y (1 - exp (- lambda * dt))"

text \<open>
  \<open>THREE.Vector3\<close>: the fields \<open>x\<close>, \<open>y\<close>, \<open>z\<close> of the source are named \<open>vx\<close>, \<open>vy\<close>,
  \<open>vz\<close> here, so that \<open>x\<close>, \<open>y\<close> and \<open>z\<close> stay free for variables.
\<close>

record Vector3 =
  vx :: real
  vy :: real
  vz :: real

section \<open>Spatial generators\<close>

text \<open>\<open>randomInSphere(radius)\<close>; \<open>u\<close>, \<open>v\<close>, \<open>w\<close> are its three \<open>Math.random()\<close> draws in call
  order. \<open>Math.cbrt\<close> is \<^term>\<open>root 3\<close>, which like \<open>Math.cbrt\<close> is odd on negative arguments.\<close>

definition randomInSphere :: "real \<Rightarrow> real \<Rightarrow> real \<Rightarrow> real \<Rightarrow> Vector3" where
  "randomInSphere radius u v w =
     (let theta = 2 * pi * u;
          phi = arccos (2 * v - 1);
          r = root 3 w * radius;
          sinPhi = sin phi
      in \<lparr>vx = r * sinPhi * cos theta,
          vy = r * sinPhi * sin theta,
          vz = r * cos phi\<rparr>)"

text \<open>\<open>pointOnConeSurface(h, r, t)\<close>; \<open>a\<close> is its \<open>Math.random()\<close> draw for the angle.\<close>

definition pointOnConeSurface :: "real \<Rightarrow> real \<Rightarrow> real \<Rightarrow> real \<Rightarrow> Vector3" where
  "pointOnConeSurface h r t a =
     (let y = t * h - h / 2;
          rAtY = r * (1 - t);
          angle = a * pi * 2
      in \<lparr>vx = rAtY * cos angle,
          vy = y,
          vz = rAtY * sin angle\<rparr>)"

text \<open>The Euclidean norm of a point and the norm of its horizontal part \<open>(x, z)\<close>.\<close>

definition norm3 :: "Vector3 \<Rightarrow> real" where
  "norm3 p = sqrt ((vx p)\<^sup>2 + (vy p)\<^sup>2 + (vz p)\<^sup>2)"

definition normXZ :: "Vector3 \<Rightarrow> real" where
  "normXZ p = sqrt ((vx p)\<^sup>2 + (vz p)\<^sup>2)"

section \<open>Shared state\<close>

text \<open>
  \<open>SyncData\<close> is the mutable object shared by the gesture loop and the frame callback;
  \<open>App\<close> creates it as \<open>{value: 0, handX: 0.5, handY: 0.5, hasHand: false}\<close> next to the React
  state \<open>isTree\<close>, initially \<open>false\<close>.
\<close>

record SyncData =
  "value" :: real
  handX :: real
  handY :: real
  hasHand :: bool

text \<open>
  The orbit controller behind \<open>controlsRef\<close> belongs to the drei / three-stdlib libraries.
  The model keeps what the frame callback reads and writes through its interface: the two
  angles returned by \<open>getAzimuthalAngle\<close> and \<open>getPolarAngle\<close> and set by
  \<open>setAzimuthalAngle\<close> and \<open>setPolarAngle\<close>, and the flag \<open>autoRotate\<close>.
\<close>

record OrbitControls =
  azimuthalAngle :: real
  polarAngle :: real
  autoRotate :: bool

text \<open>
  The state of the running application. \<open>controlsRef\<close> is \<open>None\<close> while
  \<open>controlsRef.current\<close> is still \<open>null\<close>.
\<close>

record World =
  isTree :: bool
  syncData :: SyncData
  controlsRef :: "OrbitControls option"

definition initialSyncData :: SyncData where
  "initialSyncData = \<lparr>value = 0, handX = 0.5, handY = 0.5, hasHand = False\<rparr>"

definition initialWorld :: "OrbitControls option \<Rightarrow> World" where
  "initialWorld c = \<lparr>isTree = False, syncData = initialSyncData, controlsRef = c\<rparr>"

text \<open>\<open>setTreeState\<close> is React's \<open>setIsTree\<close>: the new value is the \<open>isTree\<close> that the next
  render hands to \<open>Scene\<close>; the model stores it at once.\<close>

definition setTreeState :: "bool \<Rightarrow> World \<Rightarrow> World" where
  "setTreeState b w = w\<lparr>isTree := b\<rparr>"

section \<open>The frame callback of \<open>Scene\<close>\<close>

text \<open>The morph target of a frame: \<open>const target = isTree ? 1 : 0\<close>.\<close>

definition target :: "World \<Rightarrow> real" where
  "target w = (if isTree w then 1 else 0)"

text \<open>Part 1 of the callback, the animation progress:
  \<open>syncData.value = damp(syncData.value, target, 1.5, delta)\<close>.\<close>

definition animationProgress :: "real \<Rightarrow> World \<Rightarrow> World" where
  "animationProgress delta w =
     w\<lparr>syncData := (syncData w)\<lparr>value := damp (value (syncData w)) (target w) 1.5 delta\<rparr>\<rparr>"

text \<open>The camera targets computed from the smoothed hand position.\<close>

definition targetAzimuth :: "SyncData \<Rightarrow> real" where
  "targetAzimuth sd = (handX sd - 0.5) * pi"

definition targetPolar :: "SyncData \<Rightarrow> real" where
  "targetPolar sd = pi / 4 + handY sd * (pi / 1.5 - pi / 4)"

definition nextAzimuth :: "SyncData \<Rightarrow> OrbitControls \<Rightarrow> real" where
  "nextAzimuth sd c = lerp (azimuthalAngle c) (targetAzimuth sd) 0.05"

definition nextPolar :: "SyncData \<Rightarrow> OrbitControls \<Rightarrow> real" where
  "nextPolar sd c = lerp (polarAngle c) (targetPolar sd) 0.05"

text \<open>
  The controller's interface, taken at its word: a setter stores the angle that the getter
  returns, and \<open>update()\<close> turns the camera by a fixed angle per call while \<open>autoRotate\<close> is
  on, \<open>2\<pi> / 60 / 60 * autoRotateSpeed\<close> with the \<open>autoRotateSpeed = 0.5\<close> that \<open>Scene\<close>
  configures (\<open>rotateLeft\<close> subtracts the angle from the azimuth). What the library does
  beyond that (its own damping, its clamping to the limits, pointer input) is not modelled:
  the statements below are about what the frame callback computes and hands over.
\<close>

definition setAzimuthalAngle :: "real \<Rightarrow> OrbitControls \<Rightarrow> OrbitControls" where
  "setAzimuthalAngle a c = c\<lparr>azimuthalAngle := a\<rparr>"

definition setPolarAngle :: "real \<Rightarrow> OrbitControls \<Rightarrow> OrbitControls" where
  "setPolarAngle a c = c\<lparr>polarAngle := a\<rparr>"

definition autoRotationAngle :: real where
  "autoRotationAngle = 2 * pi / 60 / 60 * 0.5"

definition update :: "OrbitControls \<Rightarrow> OrbitControls" where
  "update c = (if autoRotate c then c\<lparr>azimuthalAngle := azimuthalAngle c - autoRotationAngle\<rparr>
               else c)"

text \<open>The elevation limits \<open>Scene\<close> configures on the controller: the props
  \<open>minPolarAngle={Math.PI / 4}\<close> and \<open>maxPolarAngle={Math.PI / 1.5}\<close>.\<close>

definition minPolarAngle :: real where
  "minPolarAngle = pi / 4"

definition maxPolarAngle :: real where
  "maxPolarAngle = pi / 1.5"

text \<open>Part 2 of the callback, the hand gesture camera control, for a mounted controller.\<close>

definition cameraControl :: "bool \<Rightarrow> SyncData \<Rightarrow> OrbitControls \<Rightarrow> OrbitControls" where
  "cameraControl tree sd c =
     update
       (if hasHand sd then
          (let c1 = c\<lparr>autoRotate := False\<rparr>;
               c2 = setAzimuthalAngle (nextAzimuth sd c1) c1
           in setPolarAngle (nextPolar sd c1) c2)
        else c\<lparr>autoRotate := tree\<rparr>)"

text \<open>The whole callback \<open>useFrame((state, delta) => ...)\<close> of \<open>Scene\<close>.\<close>

definition useFrame :: "real \<Rightarrow> World \<Rightarrow> World" where
  "useFrame delta w =
     (let w1 = animationProgress delta w
      in case controlsRef w1 of
           None \<Rightarrow> w1
         | Some c \<Rightarrow> w1\<lparr>controlsRef := Some (cameraControl (isTree w1) (syncData w1) c)\<rparr>)"

section \<open>The gesture loop of \<open>GestureController\<close>\<close>

text \<open>
  A result of the recognizer: per detected hand a list of classifications and a list of
  landmarks. The landmark fields \<open>x\<close> and \<open>y\<close> of the source are named \<open>lx\<close> and \<open>ly\<close>.
\<close>

record Category =
  categoryName :: string

record NormalizedLandmark =
  lx :: real
  ly :: real

record GestureRecognizerResult =
  gestures :: "Category list list"
  landmarks :: "NormalizedLandmark list list"

text \<open>
  Reading a property of \<open>undefined\<close> throws a \<open>TypeError\<close>: \<open>landmarks[9].x\<close> when the hand has
  fewer than ten landmarks, \<open>gesture.categoryName\<close> when the hand has no classification. The
  exception leaves the loop without scheduling its next run; the writes made before the throw
  stay. \<open>TypeError w\<close> carries the state at the throw.
\<close>

datatype 'a outcome = Returned 'a | TypeError 'a

fun state_of :: "'a outcome \<Rightarrow> 'a" where
  "state_of (Returned w) = w"
| "state_of (TypeError w) = w"

text \<open>
  One run of \<open>loop\<close>. The argument is \<open>None\<close> when the guard
  \<open>video && video.currentTime !== lastVideoTime\<close> fails (no new video frame), and \<open>Some result\<close>
  with the recognizer's result for the new video frame otherwise.
\<close>

definition loop :: "GestureRecognizerResult option \<Rightarrow> World \<Rightarrow> World outcome" where
  "loop frame w =
     (case frame of
        None \<Rightarrow> Returned w
      | Some result \<Rightarrow>
          if length (gestures result) > 0 \<and> length (landmarks result) > 0 then
            (let hand = landmarks result ! 0 in
             if length hand \<le> 9 then TypeError w
             else
               (let x = 1.0 - lx (hand ! 9);
                    y = ly (hand ! 9);
                    sd = syncData w;
                    sd1 = sd\<lparr>hasHand := True\<rparr>;
                    sd2 = sd1\<lparr>handX := lerp (handX sd1) x 0.1\<rparr>;
                    sd3 = sd2\<lparr>handY := lerp (handY sd2) y 0.1\<rparr>;
                    w1 = w\<lparr>syncData := sd3\<rparr>
                in case gestures result ! 0 of
                     [] \<Rightarrow> TypeError w1
                   | gesture # _ \<Rightarrow>
                       if categoryName gesture = ''Open_Palm'' then Returned (setTreeState False w1)
                       else if categoryName gesture = ''Closed_Fist'' then Returned (setTreeState True w1)
                       else Returned w1))
          else Returned (w\<lparr>syncData := (syncData w)\<lparr>hasHand := False\<rparr>\<rparr>))"

text \<open>
  The two callbacks run on the same thread, one at a time, in some order: a run of the gesture
  loop or a display frame with its \<open>delta\<close>. \<open>run\<close> plays a list of them and stops where the
  gesture loop throws.
\<close>

datatype event = Detection "GestureRecognizerResult option" | Frame real

fun run :: "event list \<Rightarrow> World \<Rightarrow> World outcome" where
  "run [] w = Returned w"
| "run (Frame delta # es) w = run es (useFrame delta w)"
| "run (Detection frame # es) w =
     (case loop frame w of
        Returned w' \<Rightarrow> run es w'
      | TypeError w' \<Rightarrow> TypeError w')"

text \<open>A result holds a hand as the recognizer delivers one, with its classification and its 21
  landmarks: the first entries of \<open>gestures\<close> and \<open>landmarks\<close> are there, and so are
  \<open>gestures[0][0]\<close> and \<open>landmarks[0][9]\<close>, which the loop reads.\<close>

definition containsHand :: "GestureRecognizerResult \<Rightarrow> bool" where
  "containsHand result \<longleftrightarrow>
     (case (gestures result, landmarks result) of
        ((_ # _) # _, hand # _) \<Rightarrow> 9 < length hand
      | _ \<Rightarrow> False)"

text \<open>The label of the hand: \<open>result.gestures[0][0].categoryName\<close>.\<close>

definition gestureLabel :: "GestureRecognizerResult \<Rightarrow> string" where
  "gestureLabel result = categoryName (hd (hd (gestures result)))"

text \<open>No hand: the loop's test \<open>gestures.length > 0 && landmarks.length > 0\<close> fails.\<close>

definition noHand :: "GestureRecognizerResult \<Rightarrow> bool" where
  "noHand result \<longleftrightarrow> gestures result = [] \<or> landmarks result = []"

text \<open>Every landmark of every hand of the result has its \<open>x\<close> and \<open>y\<close> in \<open>[0, 1]\<close>.\<close>

definition landmarksInUnit :: "GestureRecognizerResult \<Rightarrow> bool" where
  "landmarksInUnit result \<longleftrightarrow>
     (\<forall>hand \<in> set (landmarks result). \<forall>p \<in> set hand. 0 \<le> lx p \<and> lx p \<le> 1 \<and> 0 \<le> ly p \<and> ly p \<le> 1)"

fun eventInUnit :: "event \<Rightarrow> bool" where
  "eventInUnit (Detection (Some result)) = landmarksInUnit result"
| "eventInUnit _ = True"

section \<open>Sequences of frames\<close>

text \<open>The morph value after \<open>n\<close> frames that all come with the same \<open>delta\<close>.\<close>

definition valueAfter :: "real \<Rightarrow> nat \<Rightarrow> World \<Rightarrow> real" where
  "valueAfter dt n w = value (syncData ((useFrame dt ^^ n) w))"

text \<open>The frames of a list of \<open>delta\<close> values, played in order.\<close>

fun frames :: "real list \<Rightarrow> World \<Rightarrow> World" where
  "frames [] w = w"
| "frames (delta # ds) w = frames ds (useFrame delta w)"

section \<open>States used in the statements\<close>

text \<open>The smoothed hand position lies in the unit square.\<close>

definition handInUnit :: "World \<Rightarrow> bool" where
  "handInUnit w \<longleftrightarrow> 0 \<le> handX (syncData w) \<and> handX (syncData w) \<le> 1
     \<and> 0 \<le> handY (syncData w) \<and> handY (syncData w) \<le> 1"

text \<open>
  The controller as \<open>Scene\<close> mounts it: the camera at \<open>position={[0, 0, 20]}\<close> looks at the
  origin from azimuth 0 and polar angle \<open>\<pi>/2\<close>, and \<open>autoRotate={isTree}\<close> is \<open>false\<close> at start.
\<close>

definition initialControls :: OrbitControls where
  "initialControls = \<lparr>azimuthalAngle = 0, polarAngle = pi / 2, autoRotate = False\<rparr>"

text \<open>Example inputs, used where a statement is checked at a concrete state.\<close>

definition midwayWorld :: World where
  "midwayWorld =
     \<lparr>isTree = True,
      syncData = \<lparr>value = 0.5, handX = 0.5, handY = 0.5, hasHand = False\<rparr>,
      controlsRef = None\<rparr>"

definition steeringWorld :: World where
  "steeringWorld =
     \<lparr>isTree = True,
      syncData = \<lparr>value = 1, handX = 1, handY = 0, hasHand = True\<rparr>,
      controlsRef = Some initialControls\<rparr>"

definition idleTreeWorld :: World where
  "idleTreeWorld =
     \<lparr>isTree = True,
      syncData = \<lparr>value = 1, handX = 0.3, handY = 0.8, hasHand = False\<rparr>,
      controlsRef = Some initialControls\<rparr>"

definition closedFistResult :: GestureRecognizerResult where
  "closedFistResult =
     \<lparr>gestures = [[\<lparr>categoryName = ''Closed_Fist''\<rparr>]],
      landmarks = [replicate 21 \<lparr>lx = 0, ly = 1\<rparr>]\<rparr>"

definition emptyResult :: GestureRecognizerResult where
  "emptyResult = \<lparr>gestures = [], landmarks = []\<rparr>"

definition assemblingWorld :: World where
  "assemblingWorld =
     \<lparr>isTree = True,
      syncData = \<lparr>value = 0, handX = 0.5, handY = 0.5, hasHand = False\<rparr>,
      controlsRef = Some initialControls\<rparr>"

definition scatteringWorld :: World where
  "scatteringWorld =
     \<lparr>isTree = False,
      syncData = \<lparr>value = 1, handX = 0.5, handY = 0.5, hasHand = False\<rparr>,
      controlsRef = Some initialControls\<rparr>"

definition exampleEvents :: "event list" where
  "exampleEvents =
     [Detection (Some closedFistResult), Frame (1 / 60), Detection None,
      Detection (Some emptyResult), Frame (1 / 30)]"

section \<open>Helper lemmas\<close>

lemma damp_closed_form: "damp x y lambda dt = y + (x - y) * exp (- lambda * dt)"
  by (simp add: damp_def lerp_def algebra_simps)

lemma useFrame_isTree: "isTree (useFrame delta w) = isTree w"
  by (simp add: useFrame_def animationProgress_def Let_def split: option.splits)

lemma useFrame_target: "target (useFrame delta w) = target w"
  by (simp add: target_def useFrame_isTree)

lemma useFrame_value:
  "value (syncData (useFrame delta w)) = damp (value (syncData w)) (target w) 1.5 delta"
  by (simp add: useFrame_def animationProgress_def Let_def split: option.splits)

lemma useFrame_hand:
  "handX (syncData (useFrame delta w)) = handX (syncData w)"
  "handY (syncData (useFrame delta w)) = handY (syncData w)"
  "hasHand (syncData (useFrame delta w)) = hasHand (syncData w)"
  by (simp_all add: useFrame_def animationProgress_def Let_def split: option.splits)

lemma useFrame_funpow_target: "target ((useFrame dt ^^ n) w) = target w"
  by (induction n) (simp_all add: useFrame_target)

lemma useFrame_funpow_value:
  "value (syncData ((useFrame dt ^^ n) w))
     = target w + (value (syncData w) - target w) * exp (- 1.5 * dt) ^ n"
  by (induction n) (simp_all add: useFrame_value useFrame_funpow_target damp_closed_form)

lemma valueAfter_closed_form:
  "valueAfter dt n w = target w + (value (syncData w) - target w) * exp (- 1.5 * dt) ^ n"
  by (simp add: valueAfter_def useFrame_funpow_value)

lemma decay_factor_bounds:
  fixes dt :: real
  assumes "0 < dt"
  shows "0 < exp (- 1.5 * dt) ^ n" and "exp (- 1.5 * dt) ^ n \<le> 1"
    and "exp (- 1.5 * dt) ^ Suc n < exp (- 1.5 * dt) ^ n"
proof -
  let ?q = "exp (- 1.5 * dt)"
  have q: "0 < ?q" "?q < 1" using assms by simp_all
  show "0 < ?q ^ n" using q by simp
  show "?q ^ n \<le> 1" using q by (simp add: power_le_one)
  have "?q * ?q ^ n < 1 * ?q ^ n"
    using q by (intro mult_strict_right_mono) simp_all
  then show "?q ^ Suc n < ?q ^ n" by simp
qed

lemma lerp_step: "lerp a b t = a + t * (b - a)"
  by (simp add: lerp_def algebra_simps)

lemma lerp_unit:
  assumes "0 \<le> a" "a \<le> 1" "0 \<le> b" "b \<le> 1" "0 \<le> t" "t \<le> 1"
  shows "0 \<le> lerp a b t" and "lerp a b t \<le> 1"
proof -
  show "0 \<le> lerp a b t"
    unfolding lerp_def using assms by (intro add_nonneg_nonneg mult_nonneg_nonneg) simp_all
  have "(1 - t) * a + t * b \<le> (1 - t) * 1 + t * 1"
    using assms by (intro add_mono mult_left_mono) simp_all
  then show "lerp a b t \<le> 1" by (simp add: lerp_def)
qed

lemma targetPolar_range:
  assumes "0 \<le> handY sd" "handY sd \<le> 1"
  shows "minPolarAngle \<le> targetPolar sd" and "targetPolar sd \<le> maxPolarAngle"
proof -
  define g where "g = pi / 1.5 - pi / 4"
  have gap: "0 \<le> g" by (simp add: g_def)
  have tp: "targetPolar sd = pi / 4 + handY sd * g"
    by (simp only: targetPolar_def g_def)
  have mx: "maxPolarAngle = pi / 4 + g"
    by (simp add: maxPolarAngle_def g_def)
  have "0 \<le> handY sd * g"
    using assms(1) gap by (rule mult_nonneg_nonneg)
  then show "minPolarAngle \<le> targetPolar sd"
    unfolding tp minPolarAngle_def by linarith
  have "handY sd * g \<le> 1 * g"
    using assms(2) gap by (rule mult_right_mono)
  then show "targetPolar sd \<le> maxPolarAngle"
    unfolding tp mx by linarith
qed

lemma useFrame_controls:
  "controlsRef w = Some c \<Longrightarrow>
   controlsRef (useFrame delta w) = Some (cameraControl (isTree w) (syncData (animationProgress delta w)) c)"
  by (simp add: useFrame_def animationProgress_def Let_def)

lemma animationProgress_hand:
  "handX (syncData (animationProgress delta w)) = handX (syncData w)"
  "handY (syncData (animationProgress delta w)) = handY (syncData w)"
  "hasHand (syncData (animationProgress delta w)) = hasHand (syncData w)"
  by (simp_all add: animationProgress_def)

lemma exp_minus_nine_halves_lower: "1 / 100 < exp (- (9 / 2) :: real)"
proof -
  have "exp (real 144 * (- (1 / 32))) = exp (- (1 / 32) :: real) ^ 144"
    by (rule exp_of_nat_mult)
  then have e: "exp (- (9 / 2) :: real) = exp (- (1 / 32)) ^ 144" by simp
  have "1 + - (1 / 32) \<le> exp (- (1 / 32) :: real)" by (rule exp_ge_add_one_self)
  then have "(31 / 32 :: real) \<le> exp (- (1 / 32))" by simp
  then have "(31 / 32 :: real) ^ 144 \<le> exp (- (1 / 32)) ^ 144"
    by (intro power_mono) simp_all
  moreover have "1 / 100 < (31 / 32 :: real) ^ 144" by (simp add: power_divide)
  ultimately show ?thesis unfolding e by linarith
qed

lemma exp_minus_nine_halves_upper: "exp (- (9 / 2) :: real) \<le> 12 / 1000"
proof -
  have "exp (real 18 * (1 / 4)) = exp (1 / 4 :: real) ^ 18"
    by (rule exp_of_nat_mult)
  then have e: "exp (9 / 2 :: real) = exp (1 / 4) ^ 18" by simp
  have "1 + (1 / 4) + (1 / 4)\<^sup>2 / 2 \<le> exp (1 / 4 :: real)"
    by (rule exp_lower_Taylor_quadratic) simp
  then have "(41 / 32 :: real) \<le> exp (1 / 4)" by (simp add: power2_eq_square)
  then have "(41 / 32 :: real) ^ 18 \<le> exp (1 / 4) ^ 18"
    by (intro power_mono) simp_all
  moreover have "1000 / 12 \<le> (41 / 32 :: real) ^ 18" by (simp add: power_divide)
  ultimately have big: "1000 / 12 \<le> exp (9 / 2 :: real)" unfolding e by linarith
  have "exp (- (9 / 2) :: real) = 1 / exp (9 / 2)" by (simp add: exp_minus inverse_eq_divide)
  also have "\<dots> \<le> 1 / (1000 / 12)"
    using big by (intro divide_left_mono) simp_all
  finally show ?thesis by simp
qed

lemma frames_closed_form:
  "value (syncData (frames ds w))
     = target w + (value (syncData w) - target w) * exp (- 1.5 * sum_list ds)"
proof (induction ds arbitrary: w)
  case Nil
  show ?case by simp
next
  case (Cons d ds)
  have "exp (- 1.5 * d) * exp (- 1.5 * sum_list ds) = exp (- 1.5 * (d + sum_list ds))"
    by (simp add: exp_add [symmetric] algebra_simps)
  then show ?case
    by (simp add: Cons.IH useFrame_target useFrame_value damp_closed_form mult.assoc)
qed

lemma containsHand_cases:
  assumes "containsHand r"
  obtains g gs gss hand hands where "gestures r = (g # gs) # gss" "landmarks r = hand # hands"
    "9 < length hand"
  using assms unfolding containsHand_def
  by (auto split: list.splits)

lemma loop_hand:
  assumes "gestures r = (g # gs) # gss" "landmarks r = hand # hands" "9 < length hand"
  shows "loop (Some r) w =
     Returned ((if categoryName g = ''Open_Palm'' then setTreeState False
                else if categoryName g = ''Closed_Fist'' then setTreeState True
                else id)
        (w\<lparr>syncData := (syncData w)
            \<lparr>hasHand := True,
             handX := lerp (handX (syncData w)) (1 - lx (hand ! 9)) 0.1,
             handY := lerp (handY (syncData w)) (ly (hand ! 9)) 0.1\<rparr>\<rparr>))"
  using assms by (simp add: loop_def Let_def)

lemma loop_handInUnit:
  assumes inv: "handInUnit w" and ev: "eventInUnit (Detection frame)"
  shows "handInUnit (state_of (loop frame w))"
proof (cases frame)
  case None
  then show ?thesis using inv by (simp add: loop_def)
next
  case (Some r)
  show ?thesis
  proof (cases "length (gestures r) > 0 \<and> length (landmarks r) > 0 \<and> 9 < length (landmarks r ! 0)")
    case False
    then show ?thesis
      using inv by (auto simp add: Some loop_def Let_def handInUnit_def)
  next
    case True
    let ?p = "landmarks r ! 0 ! 9"
    have "landmarks r ! 0 \<in> set (landmarks r)" using True by simp
    moreover have "?p \<in> set (landmarks r ! 0)" using True by simp
    ultimately have p: "0 \<le> lx ?p" "lx ?p \<le> 1" "0 \<le> ly ?p" "ly ?p \<le> 1"
      using ev unfolding Some by (auto simp add: landmarksInUnit_def)
    have x: "0 \<le> lerp (handX (syncData w)) (1 - lx ?p) 0.1"
      "lerp (handX (syncData w)) (1 - lx ?p) 0.1 \<le> 1"
      using inv p by (auto simp add: handInUnit_def intro!: lerp_unit)
    have y: "0 \<le> lerp (handY (syncData w)) (ly ?p) 0.1"
      "lerp (handY (syncData w)) (ly ?p) 0.1 \<le> 1"
      using inv p by (auto simp add: handInUnit_def intro!: lerp_unit)
    show ?thesis
      using True x y
      by (simp add: Some loop_def Let_def handInUnit_def setTreeState_def split: list.splits)
  qed
qed

lemma useFrame_handInUnit: "handInUnit (useFrame delta w) = handInUnit w"
  by (simp add: handInUnit_def useFrame_hand)

lemma run_handInUnit:
  assumes "handInUnit w" "\<forall>e \<in> set es. eventInUnit e"
  shows "handInUnit (state_of (run es w))"
  using assms
proof (induction es arbitrary: w)
  case Nil
  then show ?case by simp
next
  case (Cons e es)
  show ?case
  proof (cases e)
    case (Frame delta)
    then show ?thesis using Cons by (simp add: useFrame_handInUnit)
  next
    case (Detection frame)
    have step: "handInUnit (state_of (loop frame w))"
      using Cons.prems Detection by (intro loop_handInUnit) simp_all
    show ?thesis
    proof (cases "loop frame w")
      case (Returned w')
      then show ?thesis using Cons step Detection by simp
    next
      case (TypeError w')
      then show ?thesis using step Detection by simp
    qed
  qed
qed

lemma planar_sq:
  fixes k a :: real
  shows "(k * cos a)\<^sup>2 + (k * sin a)\<^sup>2 = k\<^sup>2"
proof -
  have "(k * cos a)\<^sup>2 + (k * sin a)\<^sup>2 = k\<^sup>2 * ((cos a)\<^sup>2 + (sin a)\<^sup>2)"
    by (simp only: power_mult_distrib distrib_left)
  then show ?thesis by simp
qed

lemma spherical_norm:
  fixes r phi theta :: real
  shows "(r * sin phi * cos theta)\<^sup>2 + (r * sin phi * sin theta)\<^sup>2 + (r * cos phi)\<^sup>2 = r\<^sup>2"
proof -
  have "(r * sin phi * cos theta)\<^sup>2 + (r * sin phi * sin theta)\<^sup>2 = (r * sin phi)\<^sup>2"
    by (rule planar_sq)
  moreover have "(r * cos phi)\<^sup>2 + (r * sin phi)\<^sup>2 = r\<^sup>2"
    by (rule planar_sq)
  ultimately show ?thesis by linarith
qed

lemma norm3_randomInSphere: "norm3 (randomInSphere radius u v w) = \<bar>root 3 w * radius\<bar>"
  by (simp add: norm3_def randomInSphere_def Let_def spherical_norm)

lemma planar_norm:
  fixes r a :: real
  shows "sqrt ((r * cos a)\<^sup>2 + (r * sin a)\<^sup>2) = \<bar>r\<bar>"
  by (simp only: planar_sq real_sqrt_abs)

section \<open>The morph value\<close>

text \<open>
  C1. One frame with a strictly positive \<open>delta\<close> replaces the morph value by
  \<open>target + (value - target) * exp (- 1.5 * delta)\<close>, where the target is 0 or 1. Under repeated
  frames with the same positive \<open>delta\<close> the value after any number \<open>n\<close> of frames stays between
  the starting value and the target (no overshoot), its distance to the target does not grow
  from one frame to the next (and shrinks while the value differs from the target), and the
  value moves up when it started below the target and down when it started above. The
  statement holds for every starting value, in particular for those in \<open>[0, 1]\<close>.
\<close>

theorem morph_step_no_overshoot:
  fixes dt :: real
  assumes pos: "0 < dt"
  shows "target w \<in> {0, 1}
    \<and> value (syncData (useFrame dt w))
        = target w + (value (syncData w) - target w) * exp (- 1.5 * dt)
    \<and> min (value (syncData w)) (target w) \<le> valueAfter dt n w
    \<and> valueAfter dt n w \<le> max (value (syncData w)) (target w)
    \<and> \<bar>valueAfter dt (Suc n) w - target w\<bar> \<le> \<bar>valueAfter dt n w - target w\<bar>
    \<and> (value (syncData w) \<noteq> target w \<longrightarrow>
         \<bar>valueAfter dt (Suc n) w - target w\<bar> < \<bar>valueAfter dt n w - target w\<bar>)
    \<and> (value (syncData w) \<le> target w \<longrightarrow> valueAfter dt n w \<le> valueAfter dt (Suc n) w)
    \<and> (target w \<le> value (syncData w) \<longrightarrow> valueAfter dt (Suc n) w \<le> valueAfter dt n w)"
proof -
  let ?v = "value (syncData w)" and ?t = "target w" and ?q = "exp (- 1.5 * dt)"
  note b = decay_factor_bounds [OF pos, of n]
  have tgt: "?t \<in> {0, 1}" by (simp add: target_def)
  have one: "value (syncData (useFrame dt w)) = ?t + (?v - ?t) * ?q"
    by (simp add: useFrame_value damp_closed_form)
  define d where "d = (?v - ?t) * ?q ^ n"
  define d' where "d' = (?v - ?t) * ?q ^ Suc n"
  have below: "?v - ?t \<le> d \<and> d \<le> d' \<and> d' \<le> 0" if "?v \<le> ?t"
  proof -
    have "(?t - ?v) * ?q ^ n \<le> (?t - ?v) * 1"
      using that b(2) by (intro mult_left_mono) simp_all
    moreover have "(?t - ?v) * ?q ^ Suc n \<le> (?t - ?v) * ?q ^ n"
      using that b(3) by (intro mult_left_mono) simp_all
    moreover have "0 \<le> (?t - ?v) * ?q ^ Suc n"
      using that by (intro mult_nonneg_nonneg) simp_all
    ultimately show ?thesis by (simp add: d_def d'_def algebra_simps)
  qed
  have above: "0 \<le> d' \<and> d' \<le> d \<and> d \<le> ?v - ?t" if "?t \<le> ?v"
  proof -
    have "(?v - ?t) * ?q ^ n \<le> (?v - ?t) * 1"
      using that b(2) by (intro mult_left_mono) simp_all
    moreover have "(?v - ?t) * ?q ^ Suc n \<le> (?v - ?t) * ?q ^ n"
      using that b(3) by (intro mult_left_mono) simp_all
    moreover have "0 \<le> (?v - ?t) * ?q ^ Suc n"
      using that by (intro mult_nonneg_nonneg) simp_all
    ultimately show ?thesis by (simp add: d_def d'_def)
  qed
  have strict: "\<bar>d'\<bar> < \<bar>d\<bar>" if "?v \<noteq> ?t"
  proof -
    have "\<bar>?v - ?t\<bar> * ?q ^ Suc n < \<bar>?v - ?t\<bar> * ?q ^ n"
      using that b(3) by (intro mult_strict_left_mono) simp_all
    then show ?thesis by (simp add: d_def d'_def abs_mult)
  qed
  have vn: "valueAfter dt n w = ?t + d" and vn': "valueAfter dt (Suc n) w = ?t + d'"
    by (simp_all add: d_def d'_def valueAfter_closed_form)
  have lower: "min ?v ?t \<le> ?t + d" and upper: "?t + d \<le> max ?v ?t"
    using below above by (cases "?v \<le> ?t"; simp)+
  have dist: "\<bar>d'\<bar> \<le> \<bar>d\<bar>"
    using below above by (cases "?v \<le> ?t") simp_all
  have up: "?t + d \<le> ?t + d'" if "?v \<le> ?t" using below that by simp
  have down: "?t + d' \<le> ?t + d" if "?t \<le> ?v" using above that by simp
  show ?thesis
    unfolding vn vn' using tgt one lower upper dist strict up down by simp
qed

theorem morph_step_no_overshoot_witness:
  "(0::real) < 1 / 60
   \<and> value (syncData (useFrame (1 / 60) (setTreeState True (initialWorld None)))) = 1 - exp (- 1 / 40)
   \<and> 0 \<le> valueAfter (1 / 60) 2 (setTreeState True (initialWorld None))
   \<and> valueAfter (1 / 60) 2 (setTreeState True (initialWorld None)) \<le> 1
   \<and> valueAfter (1 / 60) 2 (setTreeState True (initialWorld None))
       \<le> valueAfter (1 / 60) 3 (setTreeState True (initialWorld None))"
  using morph_step_no_overshoot [of "1 / 60" "setTreeState True (initialWorld None)" 2]
  by (simp add: setTreeState_def initialWorld_def initialSyncData_def target_def)

text \<open>
  C2 as stated does not hold: the callback hands \<open>delta\<close> to \<open>damp\<close> as it receives it, with
  no clamp. From the value 0.5 with target 1, a frame with \<open>delta = -1\<close> gives
  \<open>1 - 0.5 * exp 1.5\<close>, which is below 0: the value has left \<open>[0, 1]\<close> and moved away from
  the target.
\<close>

theorem negative_delta_leaves_unit_interval:
  "value (syncData (useFrame (- 1) midwayWorld)) < 0"
proof -
  have "1 + 3 / 2 \<le> exp (3 / 2 :: real)" by (rule exp_ge_add_one_self)
  then have "2 < exp (3 / 2 :: real)" by simp
  then show ?thesis
    by (simp add: useFrame_value damp_closed_form target_def midwayWorld_def)
qed

text \<open>
  C2, amended. For a morph value in \<open>[0, 1]\<close> and every \<open>delta \<ge> 0\<close>, zero included, one
  frame leaves the value in \<open>[0, 1]\<close> and does not move it away from the target; with
  \<open>delta = 0\<close> the value is unchanged.
\<close>

theorem nonnegative_delta_keeps_value:
  fixes delta :: real
  assumes d: "0 \<le> delta"
    and lo: "0 \<le> value (syncData w)" and hi: "value (syncData w) \<le> 1"
  shows "0 \<le> value (syncData (useFrame delta w))
    \<and> value (syncData (useFrame delta w)) \<le> 1
    \<and> \<bar>value (syncData (useFrame delta w)) - target w\<bar> \<le> \<bar>value (syncData w) - target w\<bar>
    \<and> value (syncData (useFrame 0 w)) = value (syncData w)"
proof -
  let ?v = "value (syncData w)" and ?t = "target w" and ?q = "exp (- 1.5 * delta)"
  have q: "0 < ?q" "?q \<le> 1" using d by simp_all
  have eq: "value (syncData (useFrame delta w)) = ?t + (?v - ?t) * ?q"
    by (simp add: useFrame_value damp_closed_form)
  have zero: "value (syncData (useFrame 0 w)) = ?v"
    by (simp add: useFrame_value damp_closed_form)
  have dist: "\<bar>(?v - ?t) * ?q\<bar> \<le> \<bar>?v - ?t\<bar>"
  proof -
    have "\<bar>?v - ?t\<bar> * ?q \<le> \<bar>?v - ?t\<bar> * 1"
      using q by (intro mult_left_mono) simp_all
    then show ?thesis using q by (simp add: abs_mult)
  qed
  have conv: "?t + (?v - ?t) * ?q = ?q * ?v + (1 - ?q) * ?t"
    by (simp add: algebra_simps)
  have t01: "0 \<le> ?t" "?t \<le> 1" by (simp_all add: target_def)
  have ge0: "0 \<le> ?q * ?v + (1 - ?q) * ?t"
    using q lo t01 by (intro add_nonneg_nonneg mult_nonneg_nonneg) simp_all
  have "?q * ?v + (1 - ?q) * ?t \<le> ?q * 1 + (1 - ?q) * 1"
    using q hi t01 by (intro add_mono mult_left_mono) simp_all
  also have "\<dots> = 1" by simp
  finally have le1: "?q * ?v + (1 - ?q) * ?t \<le> 1" .
  have ge0': "0 \<le> ?t + (?v - ?t) * ?q" and le1': "?t + (?v - ?t) * ?q \<le> 1"
    using ge0 le1 by (simp_all only: conv)
  show ?thesis
    unfolding eq using ge0' le1' dist zero by simp
qed

theorem nonnegative_delta_keeps_value_witness:
  "0 \<le> value (syncData (useFrame 1 midwayWorld))
   \<and> value (syncData (useFrame 1 midwayWorld)) \<le> 1
   \<and> \<bar>value (syncData (useFrame 1 midwayWorld)) - target midwayWorld\<bar>
       \<le> \<bar>value (syncData midwayWorld) - target midwayWorld\<bar>
   \<and> value (syncData (useFrame 0 midwayWorld)) = value (syncData midwayWorld)"
  by (rule nonnegative_delta_keeps_value) (simp_all add: midwayWorld_def)

text \<open>Without a clamp, every negative \<open>delta\<close> moves a value that is not yet at its target
  away from it.\<close>

lemma negative_delta_retreats:
  fixes delta :: real
  assumes "delta < 0" "value (syncData w) \<noteq> target w"
  shows "\<bar>value (syncData w) - target w\<bar> < \<bar>value (syncData (useFrame delta w)) - target w\<bar>"
proof -
  let ?v = "value (syncData w)" and ?t = "target w" and ?q = "exp (- 1.5 * delta)"
  have q: "1 < ?q" using assms by simp
  have "\<bar>?v - ?t\<bar> * 1 < \<bar>?v - ?t\<bar> * ?q"
    using q assms(2) by (intro mult_strict_left_mono) simp_all
  then show ?thesis using q
    by (simp add: useFrame_value damp_closed_form abs_mult)
qed

section \<open>The camera mapping\<close>

text \<open>
  C3. While a hand is present and the controller is mounted, a frame computes
  \<open>targetAzimuth = (handX - 0.5) * \<pi>\<close>, which is \<open>-\<pi>/2\<close>, 0 and \<open>\<pi>/2\<close> at \<open>handX\<close> = 0, 0.5 and 1,
  and \<open>targetPolar = polarMin + handY * (polarMax - polarMin)\<close> with \<open>polarMin = \<pi>/4\<close> and
  \<open>polarMax = \<pi>/1.5\<close>, which lies in \<open>[polarMin, polarMax]\<close> for \<open>handY\<close> in \<open>[0, 1]\<close>; the
  azimuth and the polar angle handed to the controller are the current angles moved towards
  these targets by the factor 0.05.
\<close>

theorem camera_mapping:
  assumes hand: "hasHand (syncData w)" and mounted: "controlsRef w = Some c"
    and y0: "0 \<le> handY (syncData w)" and y1: "handY (syncData w) \<le> 1"
  shows "targetAzimuth (syncData w) = (handX (syncData w) - 0.5) * pi
    \<and> targetAzimuth ((syncData w)\<lparr>handX := 0\<rparr>) = - pi / 2
    \<and> targetAzimuth ((syncData w)\<lparr>handX := 0.5\<rparr>) = 0
    \<and> targetAzimuth ((syncData w)\<lparr>handX := 1\<rparr>) = pi / 2
    \<and> targetPolar (syncData w)
        = minPolarAngle + handY (syncData w) * (maxPolarAngle - minPolarAngle)
    \<and> minPolarAngle = pi / 4 \<and> maxPolarAngle = pi / 1.5
    \<and> minPolarAngle \<le> targetPolar (syncData w) \<and> targetPolar (syncData w) \<le> maxPolarAngle
    \<and> nextAzimuth (syncData w) c = lerp (azimuthalAngle c) (targetAzimuth (syncData w)) 0.05
    \<and> nextPolar (syncData w) c = lerp (polarAngle c) (targetPolar (syncData w)) 0.05
    \<and> map_option azimuthalAngle (controlsRef (useFrame delta w))
        = Some (azimuthalAngle c + 0.05 * (targetAzimuth (syncData w) - azimuthalAngle c))
    \<and> map_option polarAngle (controlsRef (useFrame delta w))
        = Some (polarAngle c + 0.05 * (targetPolar (syncData w) - polarAngle c))"
proof -
  have az: "targetAzimuth (syncData w) = (handX (syncData w) - 0.5) * pi"
    "targetAzimuth ((syncData w)\<lparr>handX := 0\<rparr>) = - pi / 2"
    "targetAzimuth ((syncData w)\<lparr>handX := 0.5\<rparr>) = 0"
    "targetAzimuth ((syncData w)\<lparr>handX := 1\<rparr>) = pi / 2"
    by (simp_all add: targetAzimuth_def)
  have po: "targetPolar (syncData w)
        = minPolarAngle + handY (syncData w) * (maxPolarAngle - minPolarAngle)"
    by (simp add: targetPolar_def minPolarAngle_def maxPolarAngle_def)
  have lims: "minPolarAngle = pi / 4" "maxPolarAngle = pi / 1.5"
    by (simp_all add: minPolarAngle_def maxPolarAngle_def)
  note range = targetPolar_range [OF y0 y1]
  let ?sd = "syncData (animationProgress delta w)"
  have same: "targetAzimuth ?sd = targetAzimuth (syncData w)"
    "targetPolar ?sd = targetPolar (syncData w)"
    by (simp_all add: targetAzimuth_def targetPolar_def animationProgress_hand)
  have cam: "cameraControl (isTree w) ?sd c
      = c\<lparr>autoRotate := False,
           azimuthalAngle := lerp (azimuthalAngle c) (targetAzimuth (syncData w)) 0.05,
           polarAngle := lerp (polarAngle c) (targetPolar (syncData w)) 0.05\<rparr>"
    using hand
    by (simp add: cameraControl_def update_def Let_def setAzimuthalAngle_def setPolarAngle_def
        nextAzimuth_def nextPolar_def animationProgress_hand same)
  have blend:
    "map_option azimuthalAngle (controlsRef (useFrame delta w))
        = Some (azimuthalAngle c + 0.05 * (targetAzimuth (syncData w) - azimuthalAngle c))"
    "map_option polarAngle (controlsRef (useFrame delta w))
        = Some (polarAngle c + 0.05 * (targetPolar (syncData w) - polarAngle c))"
    by (simp_all add: useFrame_controls [OF mounted] cam lerp_step)
  show ?thesis
    using az po lims range blend by (simp add: nextAzimuth_def nextPolar_def)
qed

theorem camera_mapping_witness:
  "targetAzimuth (syncData steeringWorld) = pi / 2
   \<and> targetPolar (syncData steeringWorld) = pi / 4
   \<and> map_option azimuthalAngle (controlsRef (useFrame (1 / 60) steeringWorld)) = Some (pi / 40)
   \<and> map_option polarAngle (controlsRef (useFrame (1 / 60) steeringWorld))
       = Some (39 * pi / 80)"
proof -
  have h: "hasHand (syncData steeringWorld)" "controlsRef steeringWorld = Some initialControls"
    "0 \<le> handY (syncData steeringWorld)" "handY (syncData steeringWorld) \<le> 1"
    by (simp_all add: steeringWorld_def)
  have a: "targetAzimuth (syncData steeringWorld) = pi / 2"
    and p: "targetPolar (syncData steeringWorld) = pi / 4"
    by (simp_all add: steeringWorld_def targetAzimuth_def targetPolar_def)
  have c: "azimuthalAngle initialControls = 0" "polarAngle initialControls = pi / 2"
    by (simp_all add: initialControls_def)
  show ?thesis
    using camera_mapping [OF h, of "1 / 60"] unfolding a p c by simp
qed

section \<open>The gesture bridge\<close>

text \<open>
  C4. For every result that holds a hand, the loop returns without throwing and the label of
  the hand decides the morph target: \<open>Open_Palm\<close> makes it 0 (scattered), \<open>Closed_Fist\<close> makes
  it 1 (assembled), any other label leaves it as it was. The frame that follows damps the
  value towards that target: after a closed fist received while the target is 0, the next
  frame already reads the target 1, and the target is never anything but 0 or 1.
\<close>

theorem gesture_label_sets_target:
  assumes hand: "containsHand r"
  shows "loop (Some r) w = Returned (state_of (loop (Some r) w))
    \<and> target (state_of (loop (Some r) w))
        = (if gestureLabel r = ''Open_Palm'' then 0
           else if gestureLabel r = ''Closed_Fist'' then 1
           else target w)
    \<and> value (syncData (useFrame delta (state_of (loop (Some r) w))))
        = damp (value (syncData w))
            (if gestureLabel r = ''Open_Palm'' then 0
             else if gestureLabel r = ''Closed_Fist'' then 1
             else target w) 1.5 delta"
proof -
  from hand obtain g gs gss hand hands
    where r: "gestures r = (g # gs) # gss" "landmarks r = hand # hands" "9 < length hand"
    by (rule containsHand_cases)
  have lab: "gestureLabel r = categoryName g"
    by (simp add: gestureLabel_def r)
  show ?thesis
    by (simp add: loop_hand [OF r] lab target_def setTreeState_def useFrame_value)
qed

theorem gesture_label_sets_target_witness:
  "target (initialWorld None) = 0
   \<and> loop (Some closedFistResult) (initialWorld None)
       = Returned (state_of (loop (Some closedFistResult) (initialWorld None)))
   \<and> target (state_of (loop (Some closedFistResult) (initialWorld None))) = 1
   \<and> value (syncData (useFrame (1 / 60)
         (state_of (loop (Some closedFistResult) (initialWorld None)))))
       = damp (value (syncData (initialWorld None))) 1 1.5 (1 / 60)"
proof -
  have h: "containsHand closedFistResult"
    by (simp add: containsHand_def closedFistResult_def)
  have l: "gestureLabel closedFistResult = ''Closed_Fist''"
    by (simp add: gestureLabel_def closedFistResult_def)
  have t: "target (initialWorld None) = 0"
    by (simp add: target_def initialWorld_def)
  show ?thesis
    using gesture_label_sets_target [OF h, of "initialWorld None" "1 / 60"] t
    unfolding l by simp
qed

text \<open>
  C5. For every result without a hand, the loop sets \<open>hasHand\<close> to false and leaves \<open>handX\<close>
  and \<open>handY\<close> exactly as they were.
\<close>

theorem no_hand_freezes_position:
  assumes "noHand r"
  shows "loop (Some r) w = Returned (w\<lparr>syncData := (syncData w)\<lparr>hasHand := False\<rparr>\<rparr>)
    \<and> hasHand (syncData (state_of (loop (Some r) w))) = False
    \<and> handX (syncData (state_of (loop (Some r) w))) = handX (syncData w)
    \<and> handY (syncData (state_of (loop (Some r) w))) = handY (syncData w)"
  using assms by (auto simp add: noHand_def loop_def)

theorem no_hand_freezes_position_witness:
  "loop (Some emptyResult) steeringWorld
     = Returned (steeringWorld\<lparr>syncData := (syncData steeringWorld)\<lparr>hasHand := False\<rparr>\<rparr>)
   \<and> hasHand (syncData (state_of (loop (Some emptyResult) steeringWorld))) = False
   \<and> handX (syncData (state_of (loop (Some emptyResult) steeringWorld)))
       = handX (syncData steeringWorld)
   \<and> handY (syncData (state_of (loop (Some emptyResult) steeringWorld)))
       = handY (syncData steeringWorld)"
  by (rule no_hand_freezes_position) (simp add: noHand_def emptyResult_def)

section \<open>Idle rotation\<close>

text \<open>
  C6 as stated does not hold when the Assembled state is the one of the morph state machine,
  a morph value near 1: the callback decides on \<open>isTree\<close>, the morph target, and never reads
  the morph value. Just after the toggle to the tree, with the value still 0 and no hand, a
  frame switches \<open>autoRotate\<close> on and turns the camera while the value has only reached
  \<open>1 - exp (- 1 / 40)\<close>, at most 1/40: rotation is active in the Assembling state. And just
  after the toggle back, with no hand and the value still at least 39/40, a frame switches
  \<open>autoRotate\<close> off and leaves the azimuth where it was.
\<close>

theorem auto_rotation_while_assembling:
  "hasHand (syncData assemblingWorld) = False
   \<and> value (syncData assemblingWorld) = 0
   \<and> value (syncData (useFrame (1 / 60) assemblingWorld)) \<le> 1 / 40
   \<and> map_option autoRotate (controlsRef (useFrame (1 / 60) assemblingWorld)) = Some True
   \<and> map_option azimuthalAngle (controlsRef (useFrame (1 / 60) assemblingWorld))
       = Some (- autoRotationAngle)
   \<and> hasHand (syncData scatteringWorld) = False
   \<and> value (syncData scatteringWorld) = 1
   \<and> 39 / 40 \<le> value (syncData (useFrame (1 / 60) scatteringWorld))
   \<and> map_option autoRotate (controlsRef (useFrame (1 / 60) scatteringWorld)) = Some False
   \<and> map_option azimuthalAngle (controlsRef (useFrame (1 / 60) scatteringWorld)) = Some 0"
proof -
  have "1 + - (1 / 40) \<le> exp (- (1 / 40) :: real)" by (rule exp_ge_add_one_self)
  then have e: "39 / 40 \<le> exp (- (1 / 40) :: real)" by simp
  have va: "value (syncData (useFrame (1 / 60) assemblingWorld)) = 1 - exp (- (1 / 40))"
    by (simp add: useFrame_value damp_closed_form target_def assemblingWorld_def)
  have vs: "value (syncData (useFrame (1 / 60) scatteringWorld)) = exp (- (1 / 40))"
    by (simp add: useFrame_value damp_closed_form target_def scatteringWorld_def)
  have ca: "controlsRef (useFrame (1 / 60) assemblingWorld)
      = Some \<lparr>azimuthalAngle = - autoRotationAngle, polarAngle = pi / 2, autoRotate = True\<rparr>"
    by (simp add: useFrame_def animationProgress_def cameraControl_def update_def
        assemblingWorld_def initialControls_def)
  have cs: "controlsRef (useFrame (1 / 60) scatteringWorld)
      = Some \<lparr>azimuthalAngle = 0, polarAngle = pi / 2, autoRotate = False\<rparr>"
    by (simp add: useFrame_def animationProgress_def cameraControl_def update_def
        scatteringWorld_def initialControls_def)
  have st: "hasHand (syncData assemblingWorld) = False" "value (syncData assemblingWorld) = 0"
    "hasHand (syncData scatteringWorld) = False" "value (syncData scatteringWorld) = 1"
    by (simp_all add: assemblingWorld_def scatteringWorld_def)
  show ?thesis
    unfolding va vs ca cs using e st by simp
qed

text \<open>
  C6, amended. After every frame with a mounted controller, \<open>autoRotate\<close> is on exactly when no
  hand is present and the morph target is Assembled (\<open>isTree\<close>, the tree mode of the source),
  whatever the morph value and whatever the flag was before the frame: a hand switches it off
  in that frame, and without a hand it follows \<open>isTree\<close> at once. With the flag on, the frame's
  \<open>update()\<close> turns the azimuth by the constant \<open>autoRotationAngle\<close>; with a hand the azimuth
  is the blended one, and otherwise it stays.
\<close>

theorem auto_rotation_state:
  assumes mounted: "controlsRef w = Some c"
  shows "map_option autoRotate (controlsRef (useFrame delta w))
        = Some (\<not> hasHand (syncData w) \<and> isTree w)
    \<and> map_option azimuthalAngle (controlsRef (useFrame delta w))
        = Some (if hasHand (syncData w) then nextAzimuth (syncData w) c
                else if isTree w then azimuthalAngle c - autoRotationAngle
                else azimuthalAngle c)
    \<and> 0 < autoRotationAngle"
proof -
  let ?sd = "syncData (animationProgress delta w)"
  have same: "nextAzimuth ?sd (c\<lparr>autoRotate := False\<rparr>) = nextAzimuth (syncData w) c"
    by (simp add: nextAzimuth_def targetAzimuth_def animationProgress_hand)
  have "autoRotate (cameraControl (isTree w) ?sd c) = (\<not> hasHand (syncData w) \<and> isTree w)"
    by (simp add: cameraControl_def update_def Let_def setAzimuthalAngle_def setPolarAngle_def
        animationProgress_hand)
  moreover have "azimuthalAngle (cameraControl (isTree w) ?sd c)
      = (if hasHand (syncData w) then nextAzimuth (syncData w) c
         else if isTree w then azimuthalAngle c - autoRotationAngle
         else azimuthalAngle c)"
    by (simp add: cameraControl_def update_def Let_def setAzimuthalAngle_def setPolarAngle_def
        animationProgress_hand same)
  moreover have "0 < autoRotationAngle" by (simp add: autoRotationAngle_def)
  ultimately show ?thesis
    by (simp add: useFrame_controls [OF mounted])
qed

theorem auto_rotation_state_witness:
  "map_option autoRotate (controlsRef (useFrame (1 / 60) idleTreeWorld)) = Some True
   \<and> map_option azimuthalAngle (controlsRef (useFrame (1 / 60) idleTreeWorld))
       = Some (- autoRotationAngle)
   \<and> map_option autoRotate (controlsRef (useFrame (1 / 60) steeringWorld)) = Some False"
proof -
  have i: "controlsRef idleTreeWorld = Some initialControls"
    "hasHand (syncData idleTreeWorld) = False" "isTree idleTreeWorld = True"
    by (simp_all add: idleTreeWorld_def)
  have s: "controlsRef steeringWorld = Some initialControls"
    "hasHand (syncData steeringWorld) = True"
    by (simp_all add: steeringWorld_def)
  have c: "azimuthalAngle initialControls = 0"
    by (simp add: initialControls_def)
  show ?thesis
    using auto_rotation_state [OF i(1), of "1 / 60"] auto_rotation_state [OF s(1), of "1 / 60"]
    unfolding i s c by simp
qed

section \<open>The spatial generators\<close>

text \<open>
  C7. For every radius \<open>r > 0\<close> and all draws \<open>u\<close>, \<open>v\<close>, \<open>w\<close> in \<open>[0, 1]\<close>, the point of
  \<open>randomInSphere\<close> has norm \<open>cbrt w * r\<close>, which is at most \<open>r\<close>, and the cube of its norm is
  \<open>w * r\<^sup>3\<close>: the cubed norm is the draw \<open>w\<close> scaled by a constant, hence as uniform as \<open>w\<close> is.
\<close>

theorem randomInSphere_volumetric:
  assumes r: "0 < radius"
    and u: "0 \<le> u" "u \<le> 1" and v: "0 \<le> v" "v \<le> 1" and w: "0 \<le> w" "w \<le> 1"
  shows "norm3 (randomInSphere radius u v w) = root 3 w * radius
    \<and> norm3 (randomInSphere radius u v w) \<le> radius
    \<and> norm3 (randomInSphere radius u v w) ^ 3 = w * radius ^ 3"
proof -
  have c0: "0 \<le> root 3 w" using w(1) by simp
  have "root 3 w \<le> root 3 1" using w(2) by (intro real_root_le_mono) simp_all
  then have c1: "root 3 w \<le> 1" by simp
  have n: "norm3 (randomInSphere radius u v w) = root 3 w * radius"
    using c0 r by (simp add: norm3_randomInSphere abs_mult)
  have "root 3 w * radius \<le> 1 * radius"
    using c1 r by (intro mult_right_mono) simp_all
  then have le: "root 3 w * radius \<le> radius" by simp
  have "root 3 w ^ 3 = w" using w(1) by (intro real_root_pow_pos2) simp_all
  then have cube: "(root 3 w * radius) ^ 3 = w * radius ^ 3"
    by (simp add: power_mult_distrib)
  show ?thesis unfolding n using le cube by simp
qed

theorem randomInSphere_volumetric_witness:
  "norm3 (randomInSphere 25 (1 / 2) (1 / 2) (1 / 8)) = 25 / 2
   \<and> norm3 (randomInSphere 25 (1 / 2) (1 / 2) (1 / 8)) \<le> 25
   \<and> norm3 (randomInSphere 25 (1 / 2) (1 / 2) (1 / 8)) ^ 3 = 1 / 8 * 25 ^ 3"
proof -
  have "root 3 ((1 / 2) ^ 3) = (1 / 2 :: real)" by (intro real_root_power_cancel) simp_all
  then have "root 3 (1 / 8) = (1 / 2 :: real)" by (simp add: power3_eq_cube)
  then show ?thesis
    using randomInSphere_volumetric [of 25 "1 / 2" "1 / 2" "1 / 8"] by simp
qed

text \<open>
  C8. For every height \<open>h\<close>, every fraction \<open>t\<close> in \<open>[0, 1]\<close> and every angle draw, the point of
  \<open>pointOnConeSurface\<close> has \<open>y = t * h - h / 2\<close> and its horizontal norm is \<open>\<bar>r\<bar> * (1 - t)\<close>,
  that is \<open>r * (1 - t)\<close> for every base radius \<open>r \<ge> 0\<close>: the point lies on the lateral surface
  of the cone.
\<close>

theorem pointOnConeSurface_on_surface:
  assumes t: "0 \<le> t" "t \<le> 1"
  shows "normXZ (pointOnConeSurface h r t a) = \<bar>r\<bar> * (1 - t)
    \<and> (0 \<le> r \<longrightarrow> normXZ (pointOnConeSurface h r t a) = r * (1 - t))
    \<and> vy (pointOnConeSurface h r t a) = t * h - h / 2"
proof -
  have "\<bar>r * (1 - t)\<bar> = \<bar>r\<bar> * (1 - t)" using t by (simp add: abs_mult)
  then show ?thesis
    by (simp add: normXZ_def pointOnConeSurface_def Let_def planar_norm)
qed

theorem pointOnConeSurface_on_surface_witness:
  "normXZ (pointOnConeSurface 12 (9 / 2) (1 / 4) (1 / 3)) = 27 / 8
   \<and> vy (pointOnConeSurface 12 (9 / 2) (1 / 4) (1 / 3)) = - 3"
  using pointOnConeSurface_on_surface [of "1 / 4" 12 "9 / 2" "1 / 3"] by simp

section \<open>Three time units of damping\<close>

text \<open>
  C9 as stated does not hold: one frame with \<open>delta = 3\<close> from the value 0 towards the target 1
  gives \<open>1 - exp (- 4.5)\<close>, about 0.9889, which is below 0.99.
\<close>

theorem three_time_units_below_99_percent:
  "value (syncData (frames [3] (setTreeState True (initialWorld None)))) < 0.99"
  using exp_minus_nine_halves_lower
  by (simp add: useFrame_value damp_closed_form target_def setTreeState_def
      initialWorld_def initialSyncData_def)

text \<open>
  C9, amended. From the value 0 with the target 1, after any frames whose \<open>delta\<close> values add
  up to 3 the morph value is \<open>1 - exp (- 4.5)\<close>: within 1.2 % of 1 (at least 0.988), and
  below 0.99.
\<close>

theorem three_time_units_value:
  assumes "sum_list ds = 3"
    and "value (syncData w) = 0" and "isTree w"
  shows "value (syncData (frames ds w)) = 1 - exp (- 4.5)
    \<and> 0.988 \<le> value (syncData (frames ds w))
    \<and> value (syncData (frames ds w)) < 0.99"
proof -
  have "value (syncData (frames ds w)) = 1 - exp (- (9 / 2))"
    using assms by (simp add: frames_closed_form target_def)
  then show ?thesis
    using exp_minus_nine_halves_lower exp_minus_nine_halves_upper by simp
qed

theorem three_time_units_value_witness:
  "sum_list [1, 1 / 2, 3 / 2 :: real] = 3
   \<and> value (syncData (frames [1, 1 / 2, 3 / 2] (setTreeState True (initialWorld None)))) < 0.99
   \<and> 0.988 \<le> value (syncData (frames [1, 1 / 2, 3 / 2] (setTreeState True (initialWorld None))))"
  using three_time_units_value [of "[1, 1 / 2, 3 / 2]" "setTreeState True (initialWorld None)"]
  by (simp add: setTreeState_def initialWorld_def initialSyncData_def)

section \<open>The smoothed hand position stays in the unit square\<close>

text \<open>
  C10. From the initial state, where \<open>handX = handY = 0.5\<close>, after any sequence of gesture-loop
  runs and frames in which every landmark of every result has its coordinates in \<open>[0, 1]\<close>,
  \<open>handX\<close> and \<open>handY\<close> are in \<open>[0, 1]\<close>, also when the loop has thrown, and therefore
  \<open>targetPolar\<close> is within the controller's polar limits. The mapping itself has no clamp:
  with \<open>handY = 2\<close> it would give an angle above \<open>maxPolarAngle\<close>.
\<close>

theorem hand_position_stays_in_unit:
  assumes "\<forall>e \<in> set es. eventInUnit e"
  shows "0 \<le> handX (syncData (state_of (run es (initialWorld c))))
    \<and> handX (syncData (state_of (run es (initialWorld c)))) \<le> 1
    \<and> 0 \<le> handY (syncData (state_of (run es (initialWorld c))))
    \<and> handY (syncData (state_of (run es (initialWorld c)))) \<le> 1
    \<and> minPolarAngle \<le> targetPolar (syncData (state_of (run es (initialWorld c))))
    \<and> targetPolar (syncData (state_of (run es (initialWorld c)))) \<le> maxPolarAngle
    \<and> maxPolarAngle < targetPolar ((syncData (state_of (run es (initialWorld c))))\<lparr>handY := 2\<rparr>)"
proof -
  let ?w = "state_of (run es (initialWorld c))"
  have "handInUnit (initialWorld c)"
    by (simp add: handInUnit_def initialWorld_def initialSyncData_def)
  then have inv: "handInUnit ?w"
    using assms by (rule run_handInUnit)
  then have range: "minPolarAngle \<le> targetPolar (syncData ?w)"
      "targetPolar (syncData ?w) \<le> maxPolarAngle"
    by (simp_all add: handInUnit_def targetPolar_range)
  have "maxPolarAngle < targetPolar ((syncData ?w)\<lparr>handY := 2\<rparr>)"
    by (simp add: targetPolar_def maxPolarAngle_def)
  then show ?thesis
    using inv range by (simp add: handInUnit_def)
qed

theorem hand_position_stays_in_unit_witness:
  "0 \<le> handX (syncData (state_of (run exampleEvents (initialWorld None))))
   \<and> handX (syncData (state_of (run exampleEvents (initialWorld None)))) \<le> 1
   \<and> 0 \<le> handY (syncData (state_of (run exampleEvents (initialWorld None))))
   \<and> handY (syncData (state_of (run exampleEvents (initialWorld None)))) \<le> 1
   \<and> minPolarAngle \<le> targetPolar (syncData (state_of (run exampleEvents (initialWorld None))))
   \<and> targetPolar (syncData (state_of (run exampleEvents (initialWorld None)))) \<le> maxPolarAngle
   \<and> maxPolarAngle
       < targetPolar ((syncData (state_of (run exampleEvents (initialWorld None))))\<lparr>handY := 2\<rparr>)"
  by (rule hand_position_stays_in_unit)
    (simp add: exampleEvents_def landmarksInUnit_def closedFistResult_def emptyResult_def)

end
